theory Spec2Isabelle
  imports Main "HOL-Library.Multiset"
begin

section \<open>Data model of App.tsx\<close>

text \<open>
  The element type of the three collections, \<^verbatim>\<open>{ LedgerEntryType: string; index: string }\<close>.
  \<^verbatim>\<open>uniqNodes\<close> is generic in \<^verbatim>\<open>T extends { index: string; LedgerEntryType: string }\<close>, which is
  the record scheme of this record.
\<close>

record entry =
  LedgerEntryType :: string
  index :: string

text \<open>
  The type of \<^verbatim>\<open>nodes\<close> and \<^verbatim>\<open>lastNodes\<close> is the intersection
  \<^verbatim>\<open>{ ledgerIndex: number } & Record<'created' | 'modified' | 'deleted', {...}[]>\<close>:
  the three collections, extended by the ledger index. The object returned by
  \<^verbatim>\<open>nodesByLedgerEntryType\<close> has the three collections only. Ledger indices are integers
  well inside the exact range of a JavaScript number, so \<^verbatim>\<open>number\<close> is \<^typ>\<open>int\<close> here.
\<close>

record buckets =
  created :: "entry list"
  modified :: "entry list"
  deleted :: "entry list"

record Nodes = buckets +
  ledgerIndex :: int

text \<open>
  Modelled from the spec: the affected-node type of the xrpl package and its predicates
  \<^verbatim>\<open>isCreatedNode\<close>, \<^verbatim>\<open>isModifiedNode\<close>, \<^verbatim>\<open>isDeletedNode\<close> are imported by App.tsx and are not
  part of the repository. Each affected node is tagged as one of three node-kinds and
  carries an entry-type name and an entry identity; the handler reads
  \<^verbatim>\<open>value.CreatedNode.LedgerEntryType\<close> and \<^verbatim>\<open>value.CreatedNode.LedgerIndex\<close> (and likewise for the
  other two kinds), which are the two selectors below. The predicates are the discriminators.
\<close>

datatype Node =
    isCreatedNode: CreatedNode (NodeLedgerEntryType: string) (LedgerIndex: string)
  | isModifiedNode: ModifiedNode (NodeLedgerEntryType: string) (LedgerIndex: string)
  | isDeletedNode: DeletedNode (NodeLedgerEntryType: string) (LedgerIndex: string)

record TransactionMetadata =
  AffectedNodes :: "Node list"

text \<open>
  A transaction event. \<^verbatim>\<open>meta\<close> is optional. The handler reads the ledger index through a
  non-null assertion (\<^verbatim>\<open>tx.ledger_index!\<close>), so the field is a number for the handler.
\<close>

record TransactionStream =
  ledger_index :: int
  meta :: "TransactionMetadata option"

text \<open>A ledger-closed event; the field below is its \<^verbatim>\<open>ledger_index\<close>.\<close>

record LedgerStream =
  ls_ledger_index :: int

section \<open>The JavaScript Map used by uniqNodes\<close>

text \<open>
  A JavaScript \<^verbatim>\<open>Map\<close> iterates in insertion order, and \<^verbatim>\<open>set\<close> on a key that is present
  replaces the value and keeps the key's position. So the map is an association list in
  insertion order. \<^verbatim>\<open>new Map(iterable)\<close> calls \<^verbatim>\<open>set\<close> for every pair of the iterable, from
  left to right, and \<^verbatim>\<open>values()\<close> yields the values in insertion order.
\<close>

fun Map_set :: "('k \<times> 'v) list \<Rightarrow> 'k \<Rightarrow> 'v \<Rightarrow> ('k \<times> 'v) list" where
  "Map_set [] k v = [(k, v)]"
| "Map_set ((k', v') # m) k v =
     (if k' = k then (k', v) # m else (k', v') # Map_set m k v)"

definition Map_new :: "('k \<times> 'v) list \<Rightarrow> ('k \<times> 'v) list" where
  "Map_new ps = foldl (\<lambda>m (k, v). Map_set m k v) [] ps"

definition Map_values :: "('k \<times> 'v) list \<Rightarrow> 'v list" where
  "Map_values m = map snd m"

text \<open>
  \<^verbatim>\<open>Array.from(new Map(nodes.map((node) => [node.index, node])).values())\<close>
\<close>

definition uniqNodes :: "'a entry_scheme list \<Rightarrow> 'a entry_scheme list" where
  "uniqNodes nodes = Map_values (Map_new (map (\<lambda>node. (index node, node)) nodes))"

section \<open>The transaction handler\<close>

text \<open>
  The handler mutates the object \<^verbatim>\<open>lastNodes\<close> in place. The function below takes the
  contents of that object and returns its contents after the call; the statements are
  kept in the order of the source. An early \<^verbatim>\<open>return\<close> without metadata leaves the object
  as it is.
\<close>

definition transactionHandler :: "TransactionStream \<Rightarrow> Nodes \<Rightarrow> Nodes" where
  "transactionHandler tx lastNodes =
     (case meta tx of
        None \<Rightarrow> lastNodes
      | Some m \<Rightarrow>
         (let modifiedNodes = filter isModifiedNode (AffectedNodes m);
              deletedNodess = filter isDeletedNode (AffectedNodes m);
              createdNodes = filter isCreatedNode (AffectedNodes m);
              currentIndex = ledger_index tx;
              newNode = (ledgerIndex lastNodes < currentIndex);
              l1 = lastNodes\<lparr>ledgerIndex := currentIndex\<rparr>;
              l2 = (if newNode then l1\<lparr>created := [], modified := [], deleted := []\<rparr> else l1);
              l3 = l2\<lparr>created := created l2 @
                     map (\<lambda>value. \<lparr>LedgerEntryType = NodeLedgerEntryType value,
                                    index = LedgerIndex value\<rparr>) createdNodes\<rparr>;
              l4 = l3\<lparr>modified := modified l3 @
                     map (\<lambda>value. \<lparr>LedgerEntryType = NodeLedgerEntryType value,
                                    index = LedgerIndex value\<rparr>) modifiedNodes\<rparr>;
              l5 = l4\<lparr>deleted := deleted l4 @
                     map (\<lambda>value. \<lparr>LedgerEntryType = NodeLedgerEntryType value,
                                    index = LedgerIndex value\<rparr>) deletedNodess\<rparr>;
              l6 = l5\<lparr>created := uniqNodes (created l5)\<rparr>;
              l7 = l6\<lparr>modified := uniqNodes (modified l6)\<rparr>;
              l8 = l7\<lparr>deleted := uniqNodes (deleted l7)\<rparr>
          in l8))"

section \<open>The component state and the ledger-closed handler\<close>

text \<open>
  Two objects of type \<^typ>\<open>Nodes\<close> exist: the initial value given to \<^verbatim>\<open>useState\<close> and the
  object \<^verbatim>\<open>lastNodes\<close> created inside the effect. The React state \<^verbatim>\<open>nodes\<close> holds a
  reference to one of them, so the objects live in a store indexed by references. The
  arrays of an object are only ever reached through that object, so the store holds them
  by value.
\<close>

datatype ref = InitialNodes | LastNodes

record App =
  heap :: "ref \<Rightarrow> Nodes"
  st_ledgerIndex :: "int option"
  st_nodes :: ref

definition empty_nodes :: Nodes where
  "empty_nodes = \<lparr>created = [], modified = [], deleted = [], ledgerIndex = 0\<rparr>"

definition App_init :: App where
  "App_init = \<lparr>heap = (\<lambda>r. empty_nodes), st_ledgerIndex = None, st_nodes = InitialNodes\<rparr>"

text \<open>
  \<^verbatim>\<open>setLedgerIndex(ledger.ledger_index - 1); setNodes(lastNodes)\<close>: the second call stores
  the reference \<^verbatim>\<open>lastNodes\<close> itself.
\<close>

definition ledgerClosedHandler :: "LedgerStream \<Rightarrow> App \<Rightarrow> App" where
  "ledgerClosedHandler ledger a =
     a\<lparr>st_ledgerIndex := Some (ls_ledger_index ledger - 1), st_nodes := LastNodes\<rparr>"

text \<open>The two events the client delivers, and their handlers registered with \<^verbatim>\<open>client.on\<close>.\<close>

datatype Event = transaction TransactionStream | ledgerClosed LedgerStream

fun emit :: "Event \<Rightarrow> App \<Rightarrow> App" where
  "emit (transaction tx) a =
     a\<lparr>heap := (heap a)(LastNodes := transactionHandler tx (heap a LastNodes))\<rparr>"
| "emit (ledgerClosed ledger) a = ledgerClosedHandler ledger a"

definition run :: "Event list \<Rightarrow> App" where
  "run events = foldl (\<lambda>a e. emit e a) App_init events"

text \<open>What a render reads through the state variable \<^verbatim>\<open>nodes\<close>.\<close>

definition nodes :: "App \<Rightarrow> Nodes" where
  "nodes a = heap a (st_nodes a)"

section \<open>The classifier\<close>

text \<open>
  \<^verbatim>\<open>nodesByLedgerEntryType\<close> closes over the state variable \<^verbatim>\<open>nodes\<close>; the object it reads is
  the first argument here.
\<close>

definition nodesByLedgerEntryType :: "Nodes \<Rightarrow> string \<Rightarrow> buckets" where
  "nodesByLedgerEntryType ns entry =
     \<lparr>created = filter (\<lambda>node. LedgerEntryType node = entry) (created ns),
      modified = filter (\<lambda>node. LedgerEntryType node = entry) (modified ns),
      deleted = filter (\<lambda>node. LedgerEntryType node = entry) (deleted ns)\<rparr>"

section \<open>Deduplication, as the specification words it\<close>

text \<open>The keys of a list in the order of their first occurrence.\<close>

primrec first_seen :: "'k list \<Rightarrow> 'k list" where
  "first_seen [] = []"
| "first_seen (k # ks) = k # filter (\<lambda>x. x \<noteq> k) (first_seen ks)"

text \<open>The most recent record of a list that carries a given identity.\<close>

definition last_with :: "'a entry_scheme list \<Rightarrow> string \<Rightarrow> 'a entry_scheme option" where
  "last_with xs k = find (\<lambda>n. index n = k) (rev xs)"

text \<open>
  The unique-by-last-occurrence list of the specification: one record for each identity,
  in the order in which the identities are first met, the record being the most recent
  one with that identity. It does not mention the Map.
\<close>

definition dedup_by_identity :: "'a entry_scheme list \<Rightarrow> 'a entry_scheme list" where
  "dedup_by_identity xs =
     concat (map (\<lambda>k. case last_with xs k of None \<Rightarrow> [] | Some r \<Rightarrow> [r])
               (first_seen (map index xs)))"


section \<open>The effect extractor, as the specification words it\<close>

text \<open>
  The handler projects each affected node inline; the projection and the three lists it
  derives from one transaction are named here so that theorems can speak about them. A
  transaction without metadata yields three empty lists.
\<close>

definition effect :: "Node \<Rightarrow> entry" where
  "effect value = \<lparr>LedgerEntryType = NodeLedgerEntryType value, index = LedgerIndex value\<rparr>"

definition extractEffects :: "TransactionStream \<Rightarrow> buckets" where
  "extractEffects tx =
     (case meta tx of
        None \<Rightarrow> \<lparr>created = [], modified = [], deleted = []\<rparr>
      | Some m \<Rightarrow>
          \<lparr>created = map effect (filter isCreatedNode (AffectedNodes m)),
           modified = map effect (filter isModifiedNode (AffectedNodes m)),
           deleted = map effect (filter isDeletedNode (AffectedNodes m))\<rparr>)"

text \<open>The entry-type names present in a snapshot, each once.\<close>

definition entry_types :: "Nodes \<Rightarrow> string list" where
  "entry_types ns = remdups (map LedgerEntryType (created ns @ modified ns @ deleted ns))"

text \<open>The invariant of a snapshot: no identity twice within a collection.\<close>

definition unique_identities :: "Nodes \<Rightarrow> bool" where
  "unique_identities s \<longleftrightarrow>
     distinct (map index (created s)) \<and> distinct (map index (modified s)) \<and>
     distinct (map index (deleted s))"

section \<open>The Map as an association list: keys and values\<close>

lemma keys_Map_set:
  "map fst (Map_set m k v) = (if k \<in> set (map fst m) then map fst m else map fst m @ [k])"
  by (induction m) force+

lemma dom_Map_set: "fst ` set (Map_set m k v) = insert k (fst ` set m)"
  using arg_cong [OF keys_Map_set [of m k v], of set] by (auto split: if_splits)

lemma map_of_Map_set: "map_of (Map_set m k v) = (map_of m)(k \<mapsto> v)"
  by (induction m) (auto simp: fun_eq_iff)

lemma set_Map_set: "set (Map_set m k v) \<subseteq> insert (k, v) (set m)"
  by (induction m) (auto split: if_splits)

lemma distinct_Map_set: "distinct (map fst m) \<Longrightarrow> distinct (map fst (Map_set m k v))"
  by (simp add: keys_Map_set)

lemma keys_foldl_Map_set:
  "map fst (foldl (\<lambda>m (k, v). Map_set m k v) m ps) =
     map fst m @ filter (\<lambda>k. k \<notin> fst ` set m) (first_seen (map fst ps))"
proof (induction ps arbitrary: m)
  case Nil
  show ?case by simp
next
  case (Cons p ps)
  obtain k v where p: "p = (k, v)" by (cases p)
  show ?case
    unfolding p by (auto simp: Cons.IH keys_Map_set dom_Map_set intro!: filter_cong)
qed

lemma map_of_foldl_Map_set:
  "map_of (foldl (\<lambda>m (k, v). Map_set m k v) m ps) = map_of m ++ map_of (rev ps)"
proof (induction ps arbitrary: m)
  case Nil
  show ?case by simp
next
  case (Cons p ps)
  obtain k v where p: "p = (k, v)" by (cases p)
  show ?case
    unfolding p
    by (auto simp: Cons.IH map_of_Map_set fun_eq_iff map_add_def split: option.splits)
qed

lemma distinct_foldl_Map_set:
  "distinct (map fst m) \<Longrightarrow> distinct (map fst (foldl (\<lambda>m (k, v). Map_set m k v) m ps))"
  by (induction ps arbitrary: m) (auto simp: distinct_Map_set)

lemma set_first_seen: "set (first_seen ks) = set ks"
  by (induction ks) auto

lemma distinct_first_seen: "distinct (first_seen ks)"
  by (induction ks) (auto simp: set_first_seen)

lemma first_seen_distinct: "distinct ks \<Longrightarrow> first_seen ks = ks"
  by (induction ks) (auto simp: set_first_seen intro: filter_True)

lemma alist_rebuild:
  assumes "distinct (map fst a)"
  shows "map (\<lambda>k. (k, the (map_of a k))) (map fst a) = a"
proof -
  have "(fst p, the (map_of a (fst p))) = p" if "p \<in> set a" for p
  proof -
    have "map_of a (fst p) = Some (snd p)"
      using that assms by simp
    then show ?thesis by simp
  qed
  then have "map (\<lambda>p. (fst p, the (map_of a (fst p)))) a = a"
    by (rule map_idI)
  then show ?thesis by (simp add: comp_def)
qed

lemma alist_eqI:
  assumes "distinct (map fst a)" "map fst a = map fst b" "map_of a = map_of b"
  shows "a = b"
proof -
  have "a = map (\<lambda>k. (k, the (map_of a k))) (map fst a)"
    using assms(1) by (simp only: alist_rebuild)
  also have "\<dots> = map (\<lambda>k. (k, the (map_of b k))) (map fst b)"
    using assms(2,3) by simp
  also have "\<dots> = b"
    using assms(1,2) by (simp only: alist_rebuild)
  finally show ?thesis .
qed

section \<open>Properties of uniqNodes\<close>

lemma keyed_Map_set:
  "\<forall>p\<in>set m. fst p = index (snd p) \<Longrightarrow> k = index v \<Longrightarrow>
     \<forall>p\<in>set (Map_set m k v). fst p = index (snd p)"
  using set_Map_set [of m k v] by auto

lemma keyed_foldl_Map_set:
  "\<forall>p\<in>set m. fst p = index (snd p) \<Longrightarrow> \<forall>p\<in>set ps. fst p = index (snd p) \<Longrightarrow>
     \<forall>p\<in>set (foldl (\<lambda>m (k, v). Map_set m k v) m ps). fst p = index (snd p)"
proof (induction ps arbitrary: m)
  case Nil
  then show ?case by simp
next
  case (Cons p ps)
  obtain k v where p: "p = (k, v)" by (cases p)
  have "\<forall>q\<in>set (Map_set m k v). fst q = index (snd q)"
    using Cons.prems p by (intro keyed_Map_set) auto
  moreover have "\<forall>q\<in>set ps. fst q = index (snd q)"
    using Cons.prems by simp
  ultimately have
    "\<forall>q\<in>set (foldl (\<lambda>m (k, v). Map_set m k v) (Map_set m k v) ps). fst q = index (snd q)"
    by (rule Cons.IH)
  then show ?case
    unfolding p by simp
qed

lemma keyed_Map_new:
  "\<forall>p\<in>set (Map_new (map (\<lambda>node. (index node, node)) xs)). fst p = index (snd p)"
  unfolding Map_new_def by (rule keyed_foldl_Map_set) auto

lemma pairs_values_Map_new:
  "map (\<lambda>node. (index node, node)) (uniqNodes xs) = Map_new (map (\<lambda>node. (index node, node)) xs)"
proof -
  let ?M = "Map_new (map (\<lambda>node. (index node, node)) xs)"
  have "(index (snd p), snd p) = p" if "p \<in> set ?M" for p
  proof -
    have "fst p = index (snd p)"
      using keyed_Map_new [of xs] that by blast
    then show ?thesis by (metis prod.collapse)
  qed
  then have "map (\<lambda>p. (index (snd p), snd p)) ?M = ?M"
    by (rule map_idI)
  then show ?thesis
    by (simp add: uniqNodes_def Map_values_def comp_def)
qed

lemma keys_uniqNodes: "map index (uniqNodes xs) = first_seen (map index xs)"
proof -
  have "map index (uniqNodes xs) = map fst (map (\<lambda>node. (index node, node)) (uniqNodes xs))"
    by (simp add: comp_def)
  also have "\<dots> = first_seen (map index xs)"
    unfolding pairs_values_Map_new Map_new_def
    by (simp add: keys_foldl_Map_set comp_def)
  finally show ?thesis .
qed

lemma distinct_uniqNodes: "distinct (map index (uniqNodes xs))"
  by (simp add: keys_uniqNodes distinct_first_seen)

lemma identities_uniqNodes: "index ` set (uniqNodes xs) = index ` set xs"
  using arg_cong [OF keys_uniqNodes [of xs], of set] by (simp add: set_first_seen)

lemma map_of_pairs: "map_of (map (\<lambda>node. (index node, node)) ys) k = find (\<lambda>n. index n = k) ys"
  by (induction ys) auto

lemma map_of_uniqNodes:
  "map_of (map (\<lambda>node. (index node, node)) (uniqNodes xs)) k = last_with xs k"
  unfolding pairs_values_Map_new Map_new_def last_with_def
  by (simp add: map_of_foldl_Map_set rev_map map_of_pairs)

lemma last_with_uniqNodes:
  assumes "r \<in> set (uniqNodes xs)"
  shows "last_with xs (index r) = Some r"
proof -
  have "distinct (map fst (map (\<lambda>node. (index node, node)) (uniqNodes xs)))"
    using distinct_uniqNodes [of xs] by (simp add: comp_def)
  moreover have "(index r, r) \<in> set (map (\<lambda>node. (index node, node)) (uniqNodes xs))"
    using assms by auto
  ultimately have "map_of (map (\<lambda>node. (index node, node)) (uniqNodes xs)) (index r) = Some r"
    by (rule map_of_is_SomeI)
  then show ?thesis by (simp only: map_of_uniqNodes)
qed

lemma uniqNodes_last_with:
  "map Some (uniqNodes xs) = map (last_with xs) (first_seen (map index xs))"
proof -
  have "map (last_with xs) (map index (uniqNodes xs)) = map Some (uniqNodes xs)"
    by (simp add: last_with_uniqNodes)
  then show ?thesis by (simp only: keys_uniqNodes)
qed

lemma dom_foldl_Map_set:
  "fst ` set (foldl (\<lambda>m (k, v). Map_set m k v) m ps) = fst ` set m \<union> fst ` set ps"
  using arg_cong [OF keys_foldl_Map_set [of m ps], of set]
  by (auto simp: set_first_seen)

lemma map_of_rev_distinct:
  assumes "distinct (map fst m)"
  shows "map_of (rev m) = map_of m"
proof -
  have "distinct (map fst (rev m))"
    using assms by (simp add: rev_map [symmetric])
  then show ?thesis
    using assms by (simp add: map_of_inject_set)
qed

lemma Map_new_distinct:
  assumes "distinct (map fst m)"
  shows "foldl (\<lambda>m (k, v). Map_set m k v) [] m = m"
proof (rule alist_eqI [symmetric])
  show "distinct (map fst m)" by fact
  show "map fst m = map fst (foldl (\<lambda>m (k, v). Map_set m k v) [] m)"
    using assms by (simp add: keys_foldl_Map_set first_seen_distinct)
  show "map_of m = map_of (foldl (\<lambda>m (k, v). Map_set m k v) [] m)"
    using assms by (simp add: map_of_foldl_Map_set map_of_rev_distinct)
qed

lemma foldl_Map_set_again:
  fixes m :: "('k \<times> 'v) list"
  assumes "distinct (map fst m)"
  shows "foldl (\<lambda>m (k, v). Map_set m k v) (foldl (\<lambda>m (k, v). Map_set m k v) m ps) ps =
           foldl (\<lambda>m (k, v). Map_set m k v) m ps"
proof -
  define M where "M = foldl (\<lambda>m (k, v). Map_set m k v) m ps"
  have d: "distinct (map fst M)"
    unfolding M_def using assms by (rule distinct_foldl_Map_set)
  have "fst ` set ps \<subseteq> fst ` set M"
    unfolding M_def by (simp add: dom_foldl_Map_set)
  then have "filter (\<lambda>k. k \<notin> fst ` set M) (first_seen (map fst ps)) = []"
    by (auto simp: filter_empty_conv set_first_seen)
  then have keys: "map fst M = map fst (foldl (\<lambda>m (k, v). Map_set m k v) M ps)"
    by (simp add: keys_foldl_Map_set)
  have "map_of M = map_of M ++ map_of (rev ps)"
    unfolding M_def
    by (auto simp: map_of_foldl_Map_set fun_eq_iff map_add_def split: option.splits)
  then have vals: "map_of M = map_of (foldl (\<lambda>m (k, v). Map_set m k v) M ps)"
    by (simp add: map_of_foldl_Map_set)
  have "M = foldl (\<lambda>m (k, v). Map_set m k v) M ps"
    using d keys vals by (rule alist_eqI)
  then show ?thesis
    unfolding M_def by simp
qed

lemma uniqNodes_absorb: "uniqNodes (uniqNodes xs @ ys) = uniqNodes (xs @ ys)"
proof -
  let ?P = "map (\<lambda>node. (index node, node))"
  let ?M = "Map_new (?P xs)"
  have d: "distinct (map fst ?M)"
    unfolding Map_new_def by (rule distinct_foldl_Map_set) simp
  have "Map_new (?P (uniqNodes xs @ ys)) = Map_new (?M @ ?P ys)"
    by (simp add: pairs_values_Map_new)
  also have "\<dots> = foldl (\<lambda>m (k, v). Map_set m k v) (foldl (\<lambda>m (k, v). Map_set m k v) [] ?M) (?P ys)"
    by (simp add: Map_new_def)
  also have "\<dots> = foldl (\<lambda>m (k, v). Map_set m k v) ?M (?P ys)"
    by (simp only: Map_new_distinct [OF d])
  also have "\<dots> = Map_new (?P (xs @ ys))"
    by (simp add: Map_new_def)
  finally show ?thesis by (simp only: uniqNodes_def)
qed

lemma uniqNodes_append_twice: "uniqNodes ((xs @ ys) @ ys) = uniqNodes (xs @ ys)"
proof -
  let ?P = "map (\<lambda>node. (index node, node))"
  let ?M = "Map_new (?P xs)"
  have d: "distinct (map fst ?M)"
    unfolding Map_new_def by (rule distinct_foldl_Map_set) simp
  have "Map_new (?P ((xs @ ys) @ ys)) =
      foldl (\<lambda>m (k, v). Map_set m k v) (foldl (\<lambda>m (k, v). Map_set m k v) ?M (?P ys)) (?P ys)"
    by (simp add: Map_new_def)
  also have "\<dots> = foldl (\<lambda>m (k, v). Map_set m k v) ?M (?P ys)"
    using d by (rule foldl_Map_set_again)
  also have "\<dots> = Map_new (?P (xs @ ys))"
    by (simp add: Map_new_def)
  finally show ?thesis by (simp only: uniqNodes_def)
qed

lemma uniqNodes_refold: "uniqNodes (uniqNodes (xs @ ys) @ ys) = uniqNodes (xs @ ys)"
  by (simp only: uniqNodes_absorb uniqNodes_append_twice)

section \<open>The transaction handler in closed form\<close>

lemma transactionHandler_None: "meta tx = None \<Longrightarrow> transactionHandler tx s = s"
  by (simp add: transactionHandler_def)

lemma extractEffects_None:
  "meta tx = None \<Longrightarrow> extractEffects tx = \<lparr>created = [], modified = [], deleted = []\<rparr>"
  by (simp add: extractEffects_def)

lemma transactionHandler_Some:
  assumes "meta tx = Some m"
  shows "transactionHandler tx s =
    \<lparr>created = uniqNodes ((if ledgerIndex s < ledger_index tx then [] else created s)
                 @ created (extractEffects tx)),
     modified = uniqNodes ((if ledgerIndex s < ledger_index tx then [] else modified s)
                 @ modified (extractEffects tx)),
     deleted = uniqNodes ((if ledgerIndex s < ledger_index tx then [] else deleted s)
                 @ deleted (extractEffects tx)),
     ledgerIndex = ledger_index tx\<rparr>"
proof -
  have eff: "(\<lambda>value. \<lparr>LedgerEntryType = NodeLedgerEntryType value, index = LedgerIndex value\<rparr>)
      = effect"
    by (simp add: fun_eq_iff effect_def)
  show ?thesis
    using assms
    by (cases s) (simp add: transactionHandler_def extractEffects_def eff Let_def)
qed

lemma uniqNodes_idem: "uniqNodes (uniqNodes xs) = uniqNodes xs"
  using uniqNodes_absorb [of xs "[]"] by simp

lemma uniqNodes_append_twice': "uniqNodes (xs @ ys @ ys) = uniqNodes (xs @ ys)"
  using uniqNodes_append_twice [of xs ys] by simp

lemma uniqNodes_double: "uniqNodes (ys @ ys) = uniqNodes ys"
  using uniqNodes_append_twice [of "[]" ys] by simp

lemma transactionHandler_twice:
  "transactionHandler tx (transactionHandler tx s) = transactionHandler tx s"
proof (cases "meta tx")
  case None
  then show ?thesis by (simp add: transactionHandler_None)
next
  case (Some m)
  show ?thesis
    by (simp add: transactionHandler_Some [OF Some] uniqNodes_absorb
        uniqNodes_append_twice' uniqNodes_double)
qed

lemma st_nodes_emit: "st_nodes a = LastNodes \<Longrightarrow> st_nodes (emit e a) = LastNodes"
  by (cases e) (simp_all add: ledgerClosedHandler_def)

lemma st_nodes_foldl_emit:
  "st_nodes a = LastNodes \<Longrightarrow> st_nodes (foldl (\<lambda>a e. emit e a) a es) = LastNodes"
  by (induction es arbitrary: a) (simp_all add: st_nodes_emit)

lemma ledgerIndex_transactionHandler:
  "ledgerIndex (transactionHandler tx s) =
     (case meta tx of None \<Rightarrow> ledgerIndex s | Some m \<Rightarrow> ledger_index tx)"
  by (simp add: transactionHandler_def Let_def split: option.splits)

section \<open>Identities, the invariant and the classifier\<close>

lemma identities_uniqNodes_append:
  "index ` set (uniqNodes (xs @ ys)) = index ` set xs \<union> index ` set ys"
  by (simp add: identities_uniqNodes image_Un)

lemma identities_transactionHandler:
  assumes "ledger_index tx \<le> ledgerIndex s"
  shows "index ` set (created (transactionHandler tx s)) =
           index ` set (created s) \<union> index ` set (created (extractEffects tx))"
    and "index ` set (modified (transactionHandler tx s)) =
           index ` set (modified s) \<union> index ` set (modified (extractEffects tx))"
    and "index ` set (deleted (transactionHandler tx s)) =
           index ` set (deleted s) \<union> index ` set (deleted (extractEffects tx))"
  using assms
  by (cases "meta tx";
      simp add: transactionHandler_None extractEffects_None transactionHandler_Some
        identities_uniqNodes_append)+

lemma unique_transactionHandler_Some:
  "meta tx = Some m \<Longrightarrow> unique_identities (transactionHandler tx s)"
  by (simp add: unique_identities_def transactionHandler_Some distinct_uniqNodes)

lemma unique_transactionHandler:
  "unique_identities s \<Longrightarrow> unique_identities (transactionHandler tx s)"
  by (cases "meta tx") (simp_all add: transactionHandler_None unique_transactionHandler_Some)

lemma unique_emit:
  "unique_identities (heap a LastNodes) \<Longrightarrow> unique_identities (heap (emit e a) LastNodes)"
  by (cases e) (simp_all add: unique_transactionHandler ledgerClosedHandler_def)

lemma unique_foldl_emit:
  "unique_identities (heap a LastNodes) \<Longrightarrow>
     unique_identities (heap (foldl (\<lambda>a e. emit e a) a es) LastNodes)"
  by (induction es arbitrary: a) (simp_all add: unique_emit)

lemma unique_run: "unique_identities (heap (run es) LastNodes)"
  unfolding run_def
  by (rule unique_foldl_emit) (simp add: App_init_def empty_nodes_def unique_identities_def)

lemma heap_InitialNodes_emit: "heap (emit e a) InitialNodes = heap a InitialNodes"
  by (cases e) (simp_all add: ledgerClosedHandler_def)

lemma heap_InitialNodes_run: "heap (run es) InitialNodes = empty_nodes"
proof -
  have "heap (foldl (\<lambda>a e. emit e a) a es) InitialNodes = heap a InitialNodes" for a
    by (induction es arbitrary: a) (simp_all add: heap_InitialNodes_emit)
  then show ?thesis by (simp add: run_def App_init_def)
qed

lemma unique_nodes_run: "unique_identities (nodes (run es))"
proof (cases "st_nodes (run es)")
  case InitialNodes
  then show ?thesis
    by (simp add: nodes_def heap_InitialNodes_run empty_nodes_def unique_identities_def)
next
  case LastNodes
  then show ?thesis
    by (simp add: nodes_def unique_run)
qed

lemma find_Some_mem: "find P ys = Some y \<Longrightarrow> y \<in> set ys"
  by (induction ys) (auto split: if_splits)

lemma set_uniqNodes: "set (uniqNodes xs) \<subseteq> set xs"
proof
  fix r assume "r \<in> set (uniqNodes xs)"
  then have "find (\<lambda>n. index n = index r) (rev xs) = Some r"
    using last_with_uniqNodes [of r xs] by (simp add: last_with_def)
  then have "r \<in> set (rev xs)"
    by (rule find_Some_mem)
  then show "r \<in> set xs"
    by simp
qed

lemma mset_filter_split:
  "e \<notin> set es \<Longrightarrow>
     mset (filter (\<lambda>x. f x = e) xs) + mset (filter (\<lambda>x. f x \<in> set es) xs) =
     mset (filter (\<lambda>x. f x = e \<or> f x \<in> set es) xs)"
  by (induction xs) auto

lemma mset_concat_filter:
  "distinct es \<Longrightarrow>
     mset (concat (map (\<lambda>e. filter (\<lambda>x. f x = e) xs) es)) =
     mset (filter (\<lambda>x. f x \<in> set es) xs)"
  by (induction es) (simp_all add: mset_filter_split del: mset_filter)

lemma mset_concat_filter_all:
  assumes "distinct es" "f ` set xs \<subseteq> set es"
  shows "mset (concat (map (\<lambda>e. filter (\<lambda>x. f x = e) xs) es)) = mset xs"
proof -
  have "filter (\<lambda>x. f x \<in> set es) xs = xs"
    using assms(2) by (auto intro: filter_True)
  then show ?thesis
    using mset_concat_filter [OF assms(1), of f xs] by simp
qed

lemma classify_created_all:
  "mset (concat (map (\<lambda>e. created (nodesByLedgerEntryType ns e)) (entry_types ns))) =
     mset (created ns)"
proof -
  have "distinct (entry_types ns)"
    by (simp add: entry_types_def)
  moreover have "LedgerEntryType ` set (created ns) \<subseteq> set (entry_types ns)"
    by (auto simp: entry_types_def)
  ultimately show ?thesis
    unfolding nodesByLedgerEntryType_def
    using mset_concat_filter_all [of "entry_types ns" LedgerEntryType "created ns"] by simp
qed

lemma classify_modified_all:
  "mset (concat (map (\<lambda>e. modified (nodesByLedgerEntryType ns e)) (entry_types ns))) =
     mset (modified ns)"
proof -
  have "distinct (entry_types ns)"
    by (simp add: entry_types_def)
  moreover have "LedgerEntryType ` set (modified ns) \<subseteq> set (entry_types ns)"
    by (auto simp: entry_types_def)
  ultimately show ?thesis
    unfolding nodesByLedgerEntryType_def
    using mset_concat_filter_all [of "entry_types ns" LedgerEntryType "modified ns"] by simp
qed

lemma classify_deleted_all:
  "mset (concat (map (\<lambda>e. deleted (nodesByLedgerEntryType ns e)) (entry_types ns))) =
     mset (deleted ns)"
proof -
  have "distinct (entry_types ns)"
    by (simp add: entry_types_def)
  moreover have "LedgerEntryType ` set (deleted ns) \<subseteq> set (entry_types ns)"
    by (auto simp: entry_types_def)
  ultimately show ?thesis
    unfolding nodesByLedgerEntryType_def
    using mset_concat_filter_all [of "entry_types ns" LedgerEntryType "deleted ns"] by simp
qed

lemma classify_unknown:
  assumes "e \<notin> set (entry_types ns)"
  shows "nodesByLedgerEntryType ns e = \<lparr>created = [], modified = [], deleted = []\<rparr>"
proof -
  have "LedgerEntryType n \<noteq> e"
    if "n \<in> set (created ns) \<union> set (modified ns) \<union> set (deleted ns)" for n
    using assms that by (auto simp: entry_types_def)
  then show ?thesis
    by (simp add: nodesByLedgerEntryType_def filter_empty_conv)
qed

section \<open>uniqNodes against the specification's deduplication\<close>

lemma concat_option_singletons:
  "map Some ys = map f ks \<Longrightarrow>
     concat (map (\<lambda>k. case f k of None \<Rightarrow> [] | Some r \<Rightarrow> [r]) ks) = ys"
proof (induction ks arbitrary: ys)
  case Nil
  then show ?case by simp
next
  case (Cons k ks)
  then obtain y ys' where ys: "ys = y # ys'" "f k = Some y" "map Some ys' = map f ks"
    by (cases ys) auto
  then show ?case
    using Cons.IH [of ys'] by simp
qed

lemma uniqNodes_refines: "uniqNodes xs = dedup_by_identity xs"
  unfolding dedup_by_identity_def
  using concat_option_singletons [OF uniqNodes_last_with [of xs]] by simp

section \<open>The claims\<close>

text \<open>The definitions a concrete instance is evaluated with.\<close>

lemmas eval_defs =
  transactionHandler_def extractEffects_def effect_def uniqNodes_def Map_new_def Map_values_def
  Let_def run_def App_init_def empty_nodes_def ledgerClosedHandler_def nodes_def
  nodesByLedgerEntryType_def entry_types_def last_with_def unique_identities_def

text \<open>
  Claim C1 says that the stored \<^verbatim>\<open>ledgerIndex\<close> never decreases. The handler assigns
  \<^verbatim>\<open>lastNodes.ledgerIndex = currentIndex\<close> before it looks at \<^verbatim>\<open>newNode\<close>, so a transaction
  that carries index 3 after one that carried index 5 leaves the stored index at 3.
\<close>

theorem ledgerIndex_decreases:
  "ledgerIndex (heap (run [transaction \<lparr>ledger_index = 5, meta = Some \<lparr>AffectedNodes = []\<rparr>\<rparr>])
       LastNodes) = 5 \<and>
   ledgerIndex (heap (run [transaction \<lparr>ledger_index = 5, meta = Some \<lparr>AffectedNodes = []\<rparr>\<rparr>,
                           transaction \<lparr>ledger_index = 3, meta = Some \<lparr>AffectedNodes = []\<rparr>\<rparr>])
       LastNodes) = 3"
  by (simp add: run_def App_init_def empty_nodes_def ledgerIndex_transactionHandler)

text \<open>
  Claim C1, as the code has it: after a transaction with metadata the stored \<^verbatim>\<open>ledgerIndex\<close>
  is the index that transaction carries, and a transaction without metadata leaves it as
  it was. So the stored index does not decrease across an update whose transaction
  carries an index that is not lower than the stored one.
\<close>

theorem ledgerIndex_follows_transaction:
  "ledgerIndex (transactionHandler tx s) =
     (case meta tx of None \<Rightarrow> ledgerIndex s | Some m \<Rightarrow> ledger_index tx) \<and>
   (ledgerIndex s \<le> ledger_index tx \<longrightarrow> ledgerIndex s \<le> ledgerIndex (transactionHandler tx s))"
  by (simp add: ledgerIndex_transactionHandler split: option.splits)

text \<open>The stored index 5 and a transaction that carries index 7.\<close>

theorem ledgerIndex_follows_transaction_witness:
  "ledgerIndex \<lparr>created = [], modified = [], deleted = [], ledgerIndex = 5\<rparr>
     \<le> ledger_index \<lparr>ledger_index = 7, meta = Some \<lparr>AffectedNodes = []\<rparr>\<rparr> \<and>
   ledgerIndex (transactionHandler \<lparr>ledger_index = 7, meta = Some \<lparr>AffectedNodes = []\<rparr>\<rparr>
      \<lparr>created = [], modified = [], deleted = [], ledgerIndex = 5\<rparr>) = 7"
  using ledgerIndex_follows_transaction
    [of "\<lparr>ledger_index = 7, meta = Some \<lparr>AffectedNodes = []\<rparr>\<rparr>"
        "\<lparr>created = [], modified = [], deleted = [], ledgerIndex = 5\<rparr>"]
  by simp

text \<open>
  Claim C2 says that the ledger-closed handler hands out a copy. It hands out the object
  \<^verbatim>\<open>lastNodes\<close> itself: what the state variable \<^verbatim>\<open>nodes\<close> reads after a ledger-closed event
  changes with the next transaction, with no further ledger-closed event.
\<close>

theorem published_snapshot_is_live:
  "nodes (run [ledgerClosed \<lparr>ls_ledger_index = 11\<rparr>]) =
     \<lparr>created = [], modified = [], deleted = [], ledgerIndex = 0\<rparr> \<and>
   nodes (run [ledgerClosed \<lparr>ls_ledger_index = 11\<rparr>,
               transaction \<lparr>ledger_index = 11,
                 meta = Some \<lparr>AffectedNodes = [CreatedNode ''AccountRoot'' ''A'']\<rparr>\<rparr>]) =
     \<lparr>created = [\<lparr>LedgerEntryType = ''AccountRoot'', index = ''A''\<rparr>], modified = [],
      deleted = [], ledgerIndex = 11\<rparr>"
  by (simp add: eval_defs)

text \<open>
  Claim C2, as the code has it: a ledger-closed event changes no object of the store (the
  accumulator keeps its \<^verbatim>\<open>ledgerIndex\<close> and its three collections), and it publishes the
  reference to the accumulator: from then on, whatever events follow, the state variable
  \<^verbatim>\<open>nodes\<close> reads the current contents of the accumulator.
\<close>

theorem ledgerClosedHandler_publishes_reference:
  "heap (ledgerClosedHandler ledger a) = heap a \<and>
   st_nodes (ledgerClosedHandler ledger a) = LastNodes \<and>
   nodes (ledgerClosedHandler ledger a) = heap a LastNodes \<and>
   nodes (foldl (\<lambda>a e. emit e a) (ledgerClosedHandler ledger a) es) =
     heap (foldl (\<lambda>a e. emit e a) (ledgerClosedHandler ledger a) es) LastNodes"
proof -
  have "st_nodes (ledgerClosedHandler ledger a) = LastNodes"
    by (simp add: ledgerClosedHandler_def)
  then have "st_nodes (foldl (\<lambda>a e. emit e a) (ledgerClosedHandler ledger a) es) = LastNodes"
    by (rule st_nodes_foldl_emit)
  then show ?thesis
    by (simp add: nodes_def ledgerClosedHandler_def)
qed

text \<open>A ledger-closed event on the initial state, followed by one transaction.\<close>

theorem ledgerClosedHandler_publishes_reference_witness:
  "heap (ledgerClosedHandler \<lparr>ls_ledger_index = 11\<rparr> App_init) LastNodes = empty_nodes \<and>
   nodes (foldl (\<lambda>a e. emit e a) (ledgerClosedHandler \<lparr>ls_ledger_index = 11\<rparr> App_init)
            [transaction \<lparr>ledger_index = 11, meta = Some \<lparr>AffectedNodes = []\<rparr>\<rparr>]) =
     \<lparr>created = [], modified = [], deleted = [], ledgerIndex = 11\<rparr>"
  using ledgerClosedHandler_publishes_reference
    [of "\<lparr>ls_ledger_index = 11\<rparr>" App_init
        "[transaction \<lparr>ledger_index = 11, meta = Some \<lparr>AffectedNodes = []\<rparr>\<rparr>]"]
  by (simp add: eval_defs)

text \<open>
  Claim C3: folding the same transaction twice in a row yields the same three collections
  as folding it once, for every accumulator state. The second delivery never resets,
  since the first one has set the stored index to the index the transaction carries.
\<close>

theorem redelivery_idempotent:
  "created (transactionHandler tx (transactionHandler tx s)) = created (transactionHandler tx s) \<and>
   modified (transactionHandler tx (transactionHandler tx s)) = modified (transactionHandler tx s) \<and>
   deleted (transactionHandler tx (transactionHandler tx s)) = deleted (transactionHandler tx s) \<and>
   transactionHandler tx (transactionHandler tx s) = transactionHandler tx s"
  by (simp add: transactionHandler_twice)

text \<open>The scenario of the specification: the transaction of ledger 10 delivered twice.\<close>

theorem redelivery_idempotent_witness:
  "created (transactionHandler
      \<lparr>ledger_index = 10, meta = Some \<lparr>AffectedNodes = [CreatedNode ''AccountRoot'' ''A'']\<rparr>\<rparr>
      (transactionHandler
        \<lparr>ledger_index = 10, meta = Some \<lparr>AffectedNodes = [CreatedNode ''AccountRoot'' ''A'']\<rparr>\<rparr>
        empty_nodes)) = [\<lparr>LedgerEntryType = ''AccountRoot'', index = ''A''\<rparr>]"
  using redelivery_idempotent
    [of "\<lparr>ledger_index = 10, meta = Some \<lparr>AffectedNodes = [CreatedNode ''AccountRoot'' ''A'']\<rparr>\<rparr>"
        empty_nodes]
  by (simp add: eval_defs)

text \<open>
  Claim C4 says that a transaction that carries a strictly greater ledger index clears the
  three collections, and that a following transaction with the same index does not clear
  them again. The handler returns before it looks at the index when the transaction has
  no metadata: such a transaction of ledger 6 leaves an accumulator at ledger 5 as it is,
  collections and index, and it is the following transaction of ledger 6 that clears.
\<close>

theorem reset_skipped_without_metadata:
  "transactionHandler \<lparr>ledger_index = 6, meta = None\<rparr>
     \<lparr>created = [\<lparr>LedgerEntryType = ''AccountRoot'', index = ''A''\<rparr>],
      modified = [\<lparr>LedgerEntryType = ''AccountRoot'', index = ''A''\<rparr>],
      deleted = [\<lparr>LedgerEntryType = ''Offer'', index = ''C''\<rparr>], ledgerIndex = 5\<rparr>
     = \<lparr>created = [\<lparr>LedgerEntryType = ''AccountRoot'', index = ''A''\<rparr>],
        modified = [\<lparr>LedgerEntryType = ''AccountRoot'', index = ''A''\<rparr>],
        deleted = [\<lparr>LedgerEntryType = ''Offer'', index = ''C''\<rparr>], ledgerIndex = 5\<rparr> \<and>
   transactionHandler
     \<lparr>ledger_index = 6, meta = Some \<lparr>AffectedNodes = [CreatedNode ''Offer'' ''B'']\<rparr>\<rparr>
     (transactionHandler \<lparr>ledger_index = 6, meta = None\<rparr>
       \<lparr>created = [\<lparr>LedgerEntryType = ''AccountRoot'', index = ''A''\<rparr>],
        modified = [\<lparr>LedgerEntryType = ''AccountRoot'', index = ''A''\<rparr>],
        deleted = [\<lparr>LedgerEntryType = ''Offer'', index = ''C''\<rparr>], ledgerIndex = 5\<rparr>)
     = \<lparr>created = [\<lparr>LedgerEntryType = ''Offer'', index = ''B''\<rparr>], modified = [],
        deleted = [], ledgerIndex = 6\<rparr>"
  by (simp add: eval_defs)

text \<open>
  Claim C4, as the code has it: a transaction with metadata that carries a strictly
  greater ledger index clears the three collections before its own effects are folded
  in, so that afterwards each collection is the deduplicated list of that transaction's
  effects alone (one record for each identity, the most recent one, in the order of first
  occurrence), whatever the collections held before; a following transaction that carries
  the same index does not clear them again: its effects are appended to what is there and
  deduplicated with it, and every identity that was there is still there.
\<close>

theorem reset_boundary:
  assumes "meta tx = Some m"
    and "ledgerIndex s < ledger_index tx"
    and "ledger_index tx' = ledger_index tx"
  shows "ledgerIndex (transactionHandler tx s) = ledger_index tx \<and>
    created (transactionHandler tx s) = dedup_by_identity (created (extractEffects tx)) \<and>
    modified (transactionHandler tx s) = dedup_by_identity (modified (extractEffects tx)) \<and>
    deleted (transactionHandler tx s) = dedup_by_identity (deleted (extractEffects tx)) \<and>
    unique_identities (transactionHandler tx s) \<and>
    created (transactionHandler tx' (transactionHandler tx s)) =
      dedup_by_identity (created (transactionHandler tx s) @ created (extractEffects tx')) \<and>
    modified (transactionHandler tx' (transactionHandler tx s)) =
      dedup_by_identity (modified (transactionHandler tx s) @ modified (extractEffects tx')) \<and>
    deleted (transactionHandler tx' (transactionHandler tx s)) =
      dedup_by_identity (deleted (transactionHandler tx s) @ deleted (extractEffects tx')) \<and>
    unique_identities (transactionHandler tx' (transactionHandler tx s)) \<and>
    index ` set (created (transactionHandler tx s))
      \<subseteq> index ` set (created (transactionHandler tx' (transactionHandler tx s))) \<and>
    index ` set (modified (transactionHandler tx s))
      \<subseteq> index ` set (modified (transactionHandler tx' (transactionHandler tx s))) \<and>
    index ` set (deleted (transactionHandler tx s))
      \<subseteq> index ` set (deleted (transactionHandler tx' (transactionHandler tx s)))"
proof -
  let ?s1 = "transactionHandler tx s"
  have first: "?s1 =
      \<lparr>created = uniqNodes (created (extractEffects tx)),
       modified = uniqNodes (modified (extractEffects tx)),
       deleted = uniqNodes (deleted (extractEffects tx)),
       ledgerIndex = ledger_index tx\<rparr>"
    using assms(2) by (simp add: transactionHandler_Some [OF assms(1)])
  have second:
    "created (transactionHandler tx' ?s1) = uniqNodes (created ?s1 @ created (extractEffects tx')) \<and>
     modified (transactionHandler tx' ?s1) = uniqNodes (modified ?s1 @ modified (extractEffects tx')) \<and>
     deleted (transactionHandler tx' ?s1) = uniqNodes (deleted ?s1 @ deleted (extractEffects tx'))"
  proof (cases "meta tx'")
    case None
    then show ?thesis
      by (simp add: transactionHandler_None extractEffects_None first uniqNodes_idem)
  next
    case (Some m')
    show ?thesis
      using assms(3) by (simp add: transactionHandler_Some [OF Some] first)
  qed
  have third:
    "index ` set (created ?s1) \<subseteq> index ` set (created (transactionHandler tx' ?s1)) \<and>
     index ` set (modified ?s1) \<subseteq> index ` set (modified (transactionHandler tx' ?s1)) \<and>
     index ` set (deleted ?s1) \<subseteq> index ` set (deleted (transactionHandler tx' ?s1))"
    by (simp only: second identities_uniqNodes_append) simp
  have u1: "unique_identities ?s1"
    using assms(1) by (rule unique_transactionHandler_Some)
  then have u2: "unique_identities (transactionHandler tx' ?s1)"
    by (rule unique_transactionHandler)
  have "ledgerIndex ?s1 = ledger_index tx \<and>
      created ?s1 = uniqNodes (created (extractEffects tx)) \<and>
      modified ?s1 = uniqNodes (modified (extractEffects tx)) \<and>
      deleted ?s1 = uniqNodes (deleted (extractEffects tx))"
    by (simp add: first)
  then show ?thesis
    using second third u1 u2 by (simp only: uniqNodes_refines)
qed

text \<open>
  An accumulator at ledger 5 with three non-empty collections; a transaction of ledger 6
  that creates the entry B twice; and a second transaction of ledger 6 that creates B once
  more and modifies D.
\<close>

theorem reset_boundary_witness:
  "meta \<lparr>ledger_index = 6, meta = Some \<lparr>AffectedNodes =
       [CreatedNode ''Offer'' ''B'', CreatedNode ''Escrow'' ''B'']\<rparr>\<rparr>
     = Some \<lparr>AffectedNodes = [CreatedNode ''Offer'' ''B'', CreatedNode ''Escrow'' ''B'']\<rparr> \<and>
   ledgerIndex \<lparr>created = [\<lparr>LedgerEntryType = ''AccountRoot'', index = ''A''\<rparr>],
                modified = [\<lparr>LedgerEntryType = ''AccountRoot'', index = ''A''\<rparr>],
                deleted = [\<lparr>LedgerEntryType = ''Offer'', index = ''C''\<rparr>], ledgerIndex = 5\<rparr>
     < ledger_index \<lparr>ledger_index = 6, meta = Some \<lparr>AffectedNodes =
         [CreatedNode ''Offer'' ''B'', CreatedNode ''Escrow'' ''B'']\<rparr>\<rparr> \<and>
   ledger_index \<lparr>ledger_index = 6, meta = Some \<lparr>AffectedNodes =
       [CreatedNode ''Check'' ''B'', ModifiedNode ''Offer'' ''D'']\<rparr>\<rparr>
     = ledger_index \<lparr>ledger_index = 6, meta = Some \<lparr>AffectedNodes =
         [CreatedNode ''Offer'' ''B'', CreatedNode ''Escrow'' ''B'']\<rparr>\<rparr> \<and>
   dedup_by_identity (created (extractEffects \<lparr>ledger_index = 6, meta = Some \<lparr>AffectedNodes =
       [CreatedNode ''Offer'' ''B'', CreatedNode ''Escrow'' ''B'']\<rparr>\<rparr>))
     = [\<lparr>LedgerEntryType = ''Escrow'', index = ''B''\<rparr>] \<and>
   transactionHandler
     \<lparr>ledger_index = 6, meta = Some \<lparr>AffectedNodes =
       [CreatedNode ''Offer'' ''B'', CreatedNode ''Escrow'' ''B'']\<rparr>\<rparr>
     \<lparr>created = [\<lparr>LedgerEntryType = ''AccountRoot'', index = ''A''\<rparr>],
      modified = [\<lparr>LedgerEntryType = ''AccountRoot'', index = ''A''\<rparr>],
      deleted = [\<lparr>LedgerEntryType = ''Offer'', index = ''C''\<rparr>], ledgerIndex = 5\<rparr>
     = \<lparr>created = [\<lparr>LedgerEntryType = ''Escrow'', index = ''B''\<rparr>], modified = [], deleted = [],
        ledgerIndex = 6\<rparr> \<and>
   transactionHandler
     \<lparr>ledger_index = 6, meta = Some \<lparr>AffectedNodes =
       [CreatedNode ''Check'' ''B'', ModifiedNode ''Offer'' ''D'']\<rparr>\<rparr>
     (transactionHandler
       \<lparr>ledger_index = 6, meta = Some \<lparr>AffectedNodes =
         [CreatedNode ''Offer'' ''B'', CreatedNode ''Escrow'' ''B'']\<rparr>\<rparr>
       \<lparr>created = [\<lparr>LedgerEntryType = ''AccountRoot'', index = ''A''\<rparr>],
        modified = [\<lparr>LedgerEntryType = ''AccountRoot'', index = ''A''\<rparr>],
        deleted = [\<lparr>LedgerEntryType = ''Offer'', index = ''C''\<rparr>], ledgerIndex = 5\<rparr>)
     = \<lparr>created = [\<lparr>LedgerEntryType = ''Check'', index = ''B''\<rparr>],
        modified = [\<lparr>LedgerEntryType = ''Offer'', index = ''D''\<rparr>], deleted = [],
        ledgerIndex = 6\<rparr>"
  using reset_boundary
    [of "\<lparr>ledger_index = 6, meta = Some \<lparr>AffectedNodes =
           [CreatedNode ''Offer'' ''B'', CreatedNode ''Escrow'' ''B'']\<rparr>\<rparr>"
        "\<lparr>AffectedNodes = [CreatedNode ''Offer'' ''B'', CreatedNode ''Escrow'' ''B'']\<rparr>"
        "\<lparr>created = [\<lparr>LedgerEntryType = ''AccountRoot'', index = ''A''\<rparr>],
          modified = [\<lparr>LedgerEntryType = ''AccountRoot'', index = ''A''\<rparr>],
          deleted = [\<lparr>LedgerEntryType = ''Offer'', index = ''C''\<rparr>], ledgerIndex = 5\<rparr>"
        "\<lparr>ledger_index = 6, meta = Some \<lparr>AffectedNodes =
           [CreatedNode ''Check'' ''B'', ModifiedNode ''Offer'' ''D'']\<rparr>\<rparr>"]
  by (simp add: eval_defs dedup_by_identity_def)

text \<open>
  Claim C5: a transaction that carries a ledger index strictly lower than the stored one
  clears no collection: the identities of each collection afterwards are those it held
  together with those of the transaction's effects. When the transaction has metadata,
  each collection afterwards is the deduplicated list of its old records followed by the
  transaction's effects: one record for each identity, the most recent one, in the order
  of first occurrence, so that no identity occurs twice.
\<close>

theorem stale_transaction_appends:
  assumes "ledger_index tx < ledgerIndex s"
  shows "index ` set (created (transactionHandler tx s)) =
      index ` set (created s) \<union> index ` set (created (extractEffects tx)) \<and>
    index ` set (modified (transactionHandler tx s)) =
      index ` set (modified s) \<union> index ` set (modified (extractEffects tx)) \<and>
    index ` set (deleted (transactionHandler tx s)) =
      index ` set (deleted s) \<union> index ` set (deleted (extractEffects tx)) \<and>
    (meta tx \<noteq> None \<longrightarrow>
      created (transactionHandler tx s) = uniqNodes (created s @ created (extractEffects tx)) \<and>
      modified (transactionHandler tx s) = uniqNodes (modified s @ modified (extractEffects tx)) \<and>
      deleted (transactionHandler tx s) = uniqNodes (deleted s @ deleted (extractEffects tx)) \<and>
      created (transactionHandler tx s) =
        dedup_by_identity (created s @ created (extractEffects tx)) \<and>
      modified (transactionHandler tx s) =
        dedup_by_identity (modified s @ modified (extractEffects tx)) \<and>
      deleted (transactionHandler tx s) =
        dedup_by_identity (deleted s @ deleted (extractEffects tx)) \<and>
      unique_identities (transactionHandler tx s))"
proof -
  have le: "ledger_index tx \<le> ledgerIndex s"
    using assms by simp
  have "created (transactionHandler tx s) = uniqNodes (created s @ created (extractEffects tx)) \<and>
      modified (transactionHandler tx s) = uniqNodes (modified s @ modified (extractEffects tx)) \<and>
      deleted (transactionHandler tx s) = uniqNodes (deleted s @ deleted (extractEffects tx)) \<and>
      unique_identities (transactionHandler tx s)"
    if "meta tx = Some m" for m
    using assms unique_transactionHandler_Some [OF that, of s]
    by (simp add: transactionHandler_Some [OF that])
  then have "meta tx \<noteq> None \<longrightarrow>
      created (transactionHandler tx s) = uniqNodes (created s @ created (extractEffects tx)) \<and>
      modified (transactionHandler tx s) = uniqNodes (modified s @ modified (extractEffects tx)) \<and>
      deleted (transactionHandler tx s) = uniqNodes (deleted s @ deleted (extractEffects tx)) \<and>
      unique_identities (transactionHandler tx s)"
    by auto
  then show ?thesis
    using identities_transactionHandler [OF le]
    by (simp add: uniqNodes_refines [symmetric])
qed

text \<open>
  An accumulator at ledger 7 that holds the entries A and B, and a transaction that
  carries index 5 and creates A again, under another entry type, and C.
\<close>

theorem stale_transaction_appends_witness:
  "ledger_index \<lparr>ledger_index = 5, meta = Some \<lparr>AffectedNodes =
       [CreatedNode ''RippleState'' ''A'', CreatedNode ''Offer'' ''C'']\<rparr>\<rparr>
     < ledgerIndex \<lparr>created = [\<lparr>LedgerEntryType = ''AccountRoot'', index = ''A''\<rparr>,
                                \<lparr>LedgerEntryType = ''Offer'', index = ''B''\<rparr>],
                     modified = [], deleted = [], ledgerIndex = 7\<rparr> \<and>
   meta \<lparr>ledger_index = 5, meta = Some \<lparr>AffectedNodes =
       [CreatedNode ''RippleState'' ''A'', CreatedNode ''Offer'' ''C'']\<rparr>\<rparr> \<noteq> None \<and>
   dedup_by_identity
     ([\<lparr>LedgerEntryType = ''AccountRoot'', index = ''A''\<rparr>,
       \<lparr>LedgerEntryType = ''Offer'', index = ''B''\<rparr>] @
      created (extractEffects \<lparr>ledger_index = 5, meta = Some \<lparr>AffectedNodes =
        [CreatedNode ''RippleState'' ''A'', CreatedNode ''Offer'' ''C'']\<rparr>\<rparr>))
     = [\<lparr>LedgerEntryType = ''RippleState'', index = ''A''\<rparr>,
        \<lparr>LedgerEntryType = ''Offer'', index = ''B''\<rparr>,
        \<lparr>LedgerEntryType = ''Offer'', index = ''C''\<rparr>] \<and>
   created (transactionHandler
      \<lparr>ledger_index = 5, meta = Some \<lparr>AffectedNodes =
        [CreatedNode ''RippleState'' ''A'', CreatedNode ''Offer'' ''C'']\<rparr>\<rparr>
      \<lparr>created = [\<lparr>LedgerEntryType = ''AccountRoot'', index = ''A''\<rparr>,
                  \<lparr>LedgerEntryType = ''Offer'', index = ''B''\<rparr>],
       modified = [], deleted = [], ledgerIndex = 7\<rparr>)
     = [\<lparr>LedgerEntryType = ''RippleState'', index = ''A''\<rparr>,
        \<lparr>LedgerEntryType = ''Offer'', index = ''B''\<rparr>,
        \<lparr>LedgerEntryType = ''Offer'', index = ''C''\<rparr>]"
  using stale_transaction_appends
    [of "\<lparr>ledger_index = 5, meta = Some \<lparr>AffectedNodes =
           [CreatedNode ''RippleState'' ''A'', CreatedNode ''Offer'' ''C'']\<rparr>\<rparr>"
        "\<lparr>created = [\<lparr>LedgerEntryType = ''AccountRoot'', index = ''A''\<rparr>,
                     \<lparr>LedgerEntryType = ''Offer'', index = ''B''\<rparr>],
          modified = [], deleted = [], ledgerIndex = 7\<rparr>"]
  by (simp add: eval_defs dedup_by_identity_def)

text \<open>
  Claim C6: in the list \<^verbatim>\<open>uniqNodes\<close> returns each identity of the input occurs exactly
  once; the identities stand in the order of their first occurrence in the input; the
  record that survives for an identity is the last record of the input with that
  identity; and every record returned is a record of the input. Consequently no identity occurs twice within a collection of the accumulator
  after any sequence of events, nor in what the state variable \<^verbatim>\<open>nodes\<close> reads, nor after a
  transaction with metadata is folded into any state.
\<close>

theorem uniqNodes_dedup:
  "distinct (map index (uniqNodes xs)) \<and>
   index ` set (uniqNodes xs) = index ` set xs \<and>
   map index (uniqNodes xs) = first_seen (map index xs) \<and>
   map Some (uniqNodes xs) = map (last_with xs) (first_seen (map index xs)) \<and>
   set (uniqNodes xs) \<subseteq> set xs \<and>
   unique_identities (heap (run es) LastNodes) \<and>
   unique_identities (nodes (run es)) \<and>
   (meta tx \<noteq> None \<longrightarrow> unique_identities (transactionHandler tx s))"
proof -
  have "unique_identities (transactionHandler tx s)" if "meta tx = Some m" for m
    using that by (rule unique_transactionHandler_Some)
  then have "meta tx \<noteq> None \<longrightarrow> unique_identities (transactionHandler tx s)"
    by auto
  then show ?thesis
    using distinct_uniqNodes [of xs] keys_uniqNodes [of xs] set_uniqNodes [of xs]
    by (simp add: identities_uniqNodes uniqNodes_last_with unique_run unique_nodes_run)
qed

text \<open>
  Three records, the first and the third with the same identity: the third survives, at
  the position of the first. Then a transaction that modifies one entry twice.
\<close>

theorem uniqNodes_dedup_witness:
  "uniqNodes [\<lparr>LedgerEntryType = ''AccountRoot'', index = ''A''\<rparr>,
              \<lparr>LedgerEntryType = ''Offer'', index = ''B''\<rparr>,
              \<lparr>LedgerEntryType = ''RippleState'', index = ''A''\<rparr>] =
     [\<lparr>LedgerEntryType = ''RippleState'', index = ''A''\<rparr>,
      \<lparr>LedgerEntryType = ''Offer'', index = ''B''\<rparr>] \<and>
   first_seen (map index [\<lparr>LedgerEntryType = ''AccountRoot'', index = ''A''\<rparr>,
              \<lparr>LedgerEntryType = ''Offer'', index = ''B''\<rparr>,
              \<lparr>LedgerEntryType = ''RippleState'', index = ''A''\<rparr>]) = [''A'', ''B''] \<and>
   meta \<lparr>ledger_index = 3, meta = Some \<lparr>AffectedNodes =
       [ModifiedNode ''Offer'' ''B'', ModifiedNode ''Offer'' ''B'']\<rparr>\<rparr> \<noteq> None \<and>
   unique_identities (transactionHandler
     \<lparr>ledger_index = 3, meta = Some \<lparr>AffectedNodes =
       [ModifiedNode ''Offer'' ''B'', ModifiedNode ''Offer'' ''B'']\<rparr>\<rparr>
     \<lparr>created = [], modified = [\<lparr>LedgerEntryType = ''Offer'', index = ''B''\<rparr>], deleted = [],
      ledgerIndex = 3\<rparr>)"
  using uniqNodes_dedup
    [of "[\<lparr>LedgerEntryType = ''AccountRoot'', index = ''A''\<rparr>,
          \<lparr>LedgerEntryType = ''Offer'', index = ''B''\<rparr>,
          \<lparr>LedgerEntryType = ''RippleState'', index = ''A''\<rparr>]"
        "[]"
        "\<lparr>ledger_index = 3, meta = Some \<lparr>AffectedNodes =
           [ModifiedNode ''Offer'' ''B'', ModifiedNode ''Offer'' ''B'']\<rparr>\<rparr>"
        "\<lparr>created = [], modified = [\<lparr>LedgerEntryType = ''Offer'', index = ''B''\<rparr>], deleted = [],
          ledgerIndex = 3\<rparr>"]
  by (simp add: eval_defs)

text \<open>
  Claim C7: a transaction without metadata yields no effect records and leaves the
  accumulator, and the whole component state, unchanged; the model has no error value,
  as the handler has no failing branch.
\<close>

theorem no_metadata_is_noop:
  assumes "meta tx = None"
  shows "transactionHandler tx s = s \<and> emit (transaction tx) a = a \<and>
    extractEffects tx = \<lparr>created = [], modified = [], deleted = []\<rparr>"
  using assms by (simp add: transactionHandler_None extractEffects_None)

text \<open>A transaction without metadata, on an accumulator at ledger 10.\<close>

theorem no_metadata_is_noop_witness:
  "meta \<lparr>ledger_index = 12, meta = None\<rparr> = None \<and>
   transactionHandler \<lparr>ledger_index = 12, meta = None\<rparr>
     \<lparr>created = [\<lparr>LedgerEntryType = ''AccountRoot'', index = ''A''\<rparr>], modified = [],
      deleted = [], ledgerIndex = 10\<rparr>
     = \<lparr>created = [\<lparr>LedgerEntryType = ''AccountRoot'', index = ''A''\<rparr>], modified = [],
        deleted = [], ledgerIndex = 10\<rparr>"
  using no_metadata_is_noop
    [of "\<lparr>ledger_index = 12, meta = None\<rparr>"
        "\<lparr>created = [\<lparr>LedgerEntryType = ''AccountRoot'', index = ''A''\<rparr>], modified = [],
          deleted = [], ledgerIndex = 10\<rparr>" App_init]
  by simp

text \<open>
  Claim C8: \<^verbatim>\<open>nodesByLedgerEntryType\<close> returns, for each of the three collections, exactly its
  records of the given entry type, in their order; an entry type present in no collection
  yields three empty lists; and the results for all entry types present in the snapshot,
  taken together, are the full collection, each record as often as it occurs there.
\<close>

theorem classify_partition:
  "created (nodesByLedgerEntryType ns e) = filter (\<lambda>n. LedgerEntryType n = e) (created ns) \<and>
   modified (nodesByLedgerEntryType ns e) = filter (\<lambda>n. LedgerEntryType n = e) (modified ns) \<and>
   deleted (nodesByLedgerEntryType ns e) = filter (\<lambda>n. LedgerEntryType n = e) (deleted ns) \<and>
   (e \<notin> set (entry_types ns) \<longrightarrow>
      nodesByLedgerEntryType ns e = \<lparr>created = [], modified = [], deleted = []\<rparr>) \<and>
   mset (concat (map (\<lambda>e. created (nodesByLedgerEntryType ns e)) (entry_types ns))) =
     mset (created ns) \<and>
   mset (concat (map (\<lambda>e. modified (nodesByLedgerEntryType ns e)) (entry_types ns))) =
     mset (modified ns) \<and>
   mset (concat (map (\<lambda>e. deleted (nodesByLedgerEntryType ns e)) (entry_types ns))) =
     mset (deleted ns)"
  using classify_unknown [of e ns]
  by (simp only: classify_created_all classify_modified_all classify_deleted_all)
     (simp add: nodesByLedgerEntryType_def)

text \<open>A snapshot with two entry types, asked for a third.\<close>

theorem classify_partition_witness:
  "''DID'' \<notin> set (entry_types
      \<lparr>created = [\<lparr>LedgerEntryType = ''AccountRoot'', index = ''A''\<rparr>],
       modified = [\<lparr>LedgerEntryType = ''Offer'', index = ''B''\<rparr>,
                   \<lparr>LedgerEntryType = ''AccountRoot'', index = ''A''\<rparr>],
       deleted = [], ledgerIndex = 10\<rparr>) \<and>
   nodesByLedgerEntryType
      \<lparr>created = [\<lparr>LedgerEntryType = ''AccountRoot'', index = ''A''\<rparr>],
       modified = [\<lparr>LedgerEntryType = ''Offer'', index = ''B''\<rparr>,
                   \<lparr>LedgerEntryType = ''AccountRoot'', index = ''A''\<rparr>],
       deleted = [], ledgerIndex = 10\<rparr> ''DID''
     = \<lparr>created = [], modified = [], deleted = []\<rparr>"
  using classify_partition
    [of "\<lparr>created = [\<lparr>LedgerEntryType = ''AccountRoot'', index = ''A''\<rparr>],
          modified = [\<lparr>LedgerEntryType = ''Offer'', index = ''B''\<rparr>,
                      \<lparr>LedgerEntryType = ''AccountRoot'', index = ''A''\<rparr>],
          deleted = [], ledgerIndex = 10\<rparr>" "''DID''"]
  by (simp add: entry_types_def)

text \<open>
  Claim C9: within one ledger (the transaction does not reset), an identity that occurs
  among the created records and among the modified records, each time in the accumulator
  or in the transaction's effects, is in the created collection and in the modified
  collection after the fold: deduplication works on each collection alone.
\<close>

theorem no_cross_kind_merge:
  assumes "ledger_index tx \<le> ledgerIndex s"
    and "x \<in> index ` (set (created s) \<union> set (created (extractEffects tx)))"
    and "x \<in> index ` (set (modified s) \<union> set (modified (extractEffects tx)))"
  shows "x \<in> index ` set (created (transactionHandler tx s)) \<and>
    x \<in> index ` set (modified (transactionHandler tx s))"
  using assms(2,3) by (simp only: identities_transactionHandler [OF assms(1)] image_Un)

text \<open>
  The scenario of the specification: entry A was created in ledger 10, and the next
  transaction of ledger 10 modifies it.
\<close>

theorem no_cross_kind_merge_witness:
  "ledger_index \<lparr>ledger_index = 10,
       meta = Some \<lparr>AffectedNodes = [ModifiedNode ''AccountRoot'' ''A'']\<rparr>\<rparr>
     \<le> ledgerIndex \<lparr>created = [\<lparr>LedgerEntryType = ''AccountRoot'', index = ''A''\<rparr>],
                      modified = [], deleted = [], ledgerIndex = 10\<rparr> \<and>
   transactionHandler
     \<lparr>ledger_index = 10, meta = Some \<lparr>AffectedNodes = [ModifiedNode ''AccountRoot'' ''A'']\<rparr>\<rparr>
     \<lparr>created = [\<lparr>LedgerEntryType = ''AccountRoot'', index = ''A''\<rparr>],
      modified = [], deleted = [], ledgerIndex = 10\<rparr>
     = \<lparr>created = [\<lparr>LedgerEntryType = ''AccountRoot'', index = ''A''\<rparr>],
        modified = [\<lparr>LedgerEntryType = ''AccountRoot'', index = ''A''\<rparr>],
        deleted = [], ledgerIndex = 10\<rparr> \<and>
   ''A'' \<in> index ` set (created (transactionHandler
     \<lparr>ledger_index = 10, meta = Some \<lparr>AffectedNodes = [ModifiedNode ''AccountRoot'' ''A'']\<rparr>\<rparr>
     \<lparr>created = [\<lparr>LedgerEntryType = ''AccountRoot'', index = ''A''\<rparr>],
      modified = [], deleted = [], ledgerIndex = 10\<rparr>)) \<and>
   ''A'' \<in> index ` set (modified (transactionHandler
     \<lparr>ledger_index = 10, meta = Some \<lparr>AffectedNodes = [ModifiedNode ''AccountRoot'' ''A'']\<rparr>\<rparr>
     \<lparr>created = [\<lparr>LedgerEntryType = ''AccountRoot'', index = ''A''\<rparr>],
      modified = [], deleted = [], ledgerIndex = 10\<rparr>))"
  using no_cross_kind_merge
    [of "\<lparr>ledger_index = 10, meta = Some \<lparr>AffectedNodes = [ModifiedNode ''AccountRoot'' ''A'']\<rparr>\<rparr>"
        "\<lparr>created = [\<lparr>LedgerEntryType = ''AccountRoot'', index = ''A''\<rparr>],
          modified = [], deleted = [], ledgerIndex = 10\<rparr>" "''A''"]
  by (simp add: eval_defs)

text \<open>
  Claim C10: a ledger-closed event that reports index L publishes L - 1 as the index of
  the closed ledger.
\<close>

theorem closed_ledger_index:
  "st_ledgerIndex (ledgerClosedHandler ledger a) = Some (ls_ledger_index ledger - 1) \<and>
   st_ledgerIndex (emit (ledgerClosed ledger) a) = Some (ls_ledger_index ledger - 1)"
  by (simp add: ledgerClosedHandler_def)

text \<open>The scenario of the specification: the event reports 11, the closed ledger is 10.\<close>

theorem closed_ledger_index_witness:
  "st_ledgerIndex (run [ledgerClosed \<lparr>ls_ledger_index = 11\<rparr>]) = Some 10"
  using closed_ledger_index [of "\<lparr>ls_ledger_index = 11\<rparr>" App_init]
  by (simp add: run_def)

end
